theory Spec2Isabelle
  imports Complex_Main
begin

section \<open>Time, errors and configuration\<close>

text \<open>
  A \<^verbatim>\<open>datetime\<close> is modelled as a real number of seconds since a fixed epoch, a
  \<^verbatim>\<open>timedelta\<close> as a real number of seconds, so \<^verbatim>\<open>(a - b).total_seconds()\<close> is
  \<open>a - b\<close> and \<^verbatim>\<open>t + timedelta(hours=1)\<close> is \<open>t + 3600\<close>. Floating-point rounding
  is not modelled. The clock is simulated: \<^verbatim>\<open>datetime.now()\<close> reads the field
  \<open>clock\<close>, \<^verbatim>\<open>time.sleep(d)\<close> advances it by exactly \<open>d\<close>, and the statements of
  the program take no time themselves.
\<close>

type_synonym datetime = real

datatype py_error = ValueError | TypeError | OverflowError

text \<open>\<^verbatim>\<open>CONFIG["rate_limit"]\<close>, and the flag \<^verbatim>\<open>CONFIG["stealth"]["randomize_timing"]\<close>
  that \<^verbatim>\<open>wait_if_needed\<close> reads from the global dictionary.\<close>

record rate_limit_config =
  requests_per_hour :: int
  min_delay :: real
  rl_max_delay :: real
  burst_limit :: int
  cooldown_after_burst :: real
  randomize_timing :: bool

definition CONFIG :: rate_limit_config where
  "CONFIG = \<lparr> requests_per_hour = 180, min_delay = 2, rl_max_delay = 5,
              burst_limit = 10, cooldown_after_burst = 60, randomize_timing = True \<rparr>"

text \<open>The dataclass \<^verbatim>\<open>RateLimitState\<close>.\<close>

record RateLimitState =
  requests_made :: int
  window_start :: datetime
  last_request :: "datetime option"
  burst_count :: int
  burst_start :: "datetime option"
  is_cooling_down :: bool
  cooldown_until :: "datetime option"

text \<open>An \<^verbatim>\<open>IntelligentRateLimiter\<close> object together with the simulated clock.\<close>

record world =
  clock :: datetime
  state :: RateLimitState
  request_history :: "datetime list"

definition and_then :: "'e + 'a \<Rightarrow> ('a \<Rightarrow> 'e + 'b) \<Rightarrow> 'e + 'b" where
  "and_then r f = (case r of Inl e \<Rightarrow> Inl e | Inr x \<Rightarrow> f x)"

text \<open>\<^verbatim>\<open>IntelligentRateLimiter.__init__\<close>, run when the clock shows \<open>t0\<close>
  (\<^verbatim>\<open>window_start\<close> defaults to \<^verbatim>\<open>datetime.now()\<close>).\<close>

definition init_world :: "datetime \<Rightarrow> world" where
  "init_world t0 =
     \<lparr> clock = t0,
       state = \<lparr> requests_made = 0, window_start = t0, last_request = None,
                 burst_count = 0, burst_start = None, is_cooling_down = False,
                 cooldown_until = None \<rparr>,
       request_history = [] \<rparr>"

section \<open>Sleeping\<close>

text \<open>\<^verbatim>\<open>time.sleep\<close> raises \<^verbatim>\<open>ValueError\<close> on a negative argument.\<close>

definition time_sleep :: "real \<Rightarrow> world \<Rightarrow> py_error + world" where
  "time_sleep secs w =
     (if secs < 0 then Inl ValueError else Inr (w\<lparr>clock := clock w + secs\<rparr>))"

text \<open>\<^verbatim>\<open>int(x)\<close> on a float truncates towards zero.\<close>

definition py_int :: "real \<Rightarrow> int" where
  "py_int x = (if x < 0 then \<lceil>x\<rceil> else \<lfloor>x\<rfloor>)"

text \<open>The loop \<^verbatim>\<open>for i in range(steps): ... time.sleep(1)\<close>.\<close>

fun sleep_steps :: "nat \<Rightarrow> world \<Rightarrow> py_error + world" where
  "sleep_steps 0 w = Inr w"
| "sleep_steps (Suc n) w = and_then (time_sleep 1 w) (sleep_steps n)"

text \<open>\<^verbatim>\<open>IntelligentRateLimiter._sleep_with_progress\<close> (the printing is left out).\<close>

definition sleep_with_progress :: "real \<Rightarrow> world \<Rightarrow> py_error + world" where
  "sleep_with_progress seconds w =
     (if seconds < 5 then time_sleep seconds w
      else sleep_steps (nat (py_int seconds)) w)"

section \<open>The admission call\<close>

text \<open>
  \<^verbatim>\<open>wait_if_needed\<close> reads the clock once, into \<open>now\<close>, and then runs five numbered
  blocks; each block is one function here, taking that \<open>now\<close>. The two random draws
  are arguments: \<open>u\<close> is the value of \<^verbatim>\<open>random.uniform(-0.3, 0.3)\<close> and \<open>rd\<close> the value of
  \<^verbatim>\<open>random.uniform(0.5, 2.0)\<close>. An exception ends the call; the error result does not
  carry the state the object was left in.
\<close>

text \<open>Block 1, \<^verbatim>\<open># 1. Check if in cooldown\<close>. Comparing a datetime with \<^verbatim>\<open>None\<close>
  raises \<^verbatim>\<open>TypeError\<close>.\<close>

definition cooldown_check :: "datetime \<Rightarrow> world \<Rightarrow> py_error + world" where
  "cooldown_check now w =
     (if is_cooling_down (state w) then
        (case cooldown_until (state w) of
           None \<Rightarrow> Inl TypeError
         | Some until \<Rightarrow>
             if now < until then sleep_with_progress (until - now) w
             else Inr (w\<lparr>state := (state w)\<lparr>is_cooling_down := False, burst_count := 0\<rparr>\<rparr>))
      else Inr w)"

text \<open>Block 2, \<^verbatim>\<open># 2. Rolling window check\<close>. \<^verbatim>\<open>min\<close> of an empty list raises
  \<^verbatim>\<open>ValueError\<close>.\<close>

definition recent_requests :: "datetime \<Rightarrow> datetime list \<Rightarrow> datetime list" where
  "recent_requests now h = filter (\<lambda>t. t > now - 3600) h"

definition py_min :: "real list \<Rightarrow> py_error + real" where
  "py_min xs = (case xs of [] \<Rightarrow> Inl ValueError | x # ys \<Rightarrow> Inr (fold min ys x))"

definition rolling_window_check ::
  "rate_limit_config \<Rightarrow> datetime \<Rightarrow> world \<Rightarrow> py_error + world" where
  "rolling_window_check cfg now w =
     (let recent = recent_requests now (request_history w) in
      if int (length recent) \<ge> requests_per_hour cfg then
        and_then (py_min recent) (\<lambda>oldest.
          let wait_until = oldest + 3600;
              wait_time = wait_until - now
          in sleep_with_progress wait_time w)
      else Inr w)"

text \<open>Block 3, \<^verbatim>\<open># 3. Minimum delay since last request\<close>.\<close>

definition min_delay_check ::
  "rate_limit_config \<Rightarrow> real \<Rightarrow> datetime \<Rightarrow> world \<Rightarrow> py_error + world" where
  "min_delay_check cfg u now w =
     (case last_request (state w) of
        None \<Rightarrow> Inr w
      | Some l \<Rightarrow>
          let time_since_last = now - l in
          if time_since_last < min_delay cfg then
            let wait_time = min_delay cfg - time_since_last;
                jitter = u * wait_time;
                wait_time' = wait_time + jitter
            in time_sleep (max 0 wait_time') w
          else Inr w)"

text \<open>Block 4, \<^verbatim>\<open># 4. Burst detection\<close>.\<close>

definition reset_burst :: "datetime \<Rightarrow> world \<Rightarrow> world" where
  "reset_burst now w = w\<lparr>state := (state w)\<lparr>burst_start := Some now, burst_count := 1\<rparr>\<rparr>"

definition burst_detection ::
  "rate_limit_config \<Rightarrow> datetime \<Rightarrow> world \<Rightarrow> py_error + world" where
  "burst_detection cfg now w =
     (case burst_start (state w) of
        Some b \<Rightarrow>
          let burst_duration = now - b in
          if burst_duration < 10 then
            let w1 = w\<lparr>state := (state w)\<lparr>burst_count := burst_count (state w) + 1\<rparr>\<rparr> in
            if burst_count (state w1) \<ge> burst_limit cfg then
              let w2 = w1\<lparr>state := (state w1)\<lparr>is_cooling_down := True,
                          cooldown_until := Some (now + cooldown_after_burst cfg)\<rparr>\<rparr>
              in and_then (sleep_with_progress (cooldown_after_burst cfg) w2)
                   (\<lambda>w3. Inr (w3\<lparr>state := (state w3)\<lparr>burst_count := 0\<rparr>\<rparr>))
            else Inr w1
          else Inr (reset_burst now w)
      | None \<Rightarrow> Inr (reset_burst now w))"

text \<open>Block 5, \<^verbatim>\<open># 5. Human-like randomization\<close>.\<close>

definition human_delay :: "rate_limit_config \<Rightarrow> real \<Rightarrow> world \<Rightarrow> py_error + world" where
  "human_delay cfg rd w = (if randomize_timing cfg then time_sleep rd w else Inr w)"

definition wait_if_needed ::
  "rate_limit_config \<Rightarrow> real \<Rightarrow> real \<Rightarrow> world \<Rightarrow> py_error + world" where
  "wait_if_needed cfg u rd w =
     (let now = clock w in
      and_then (cooldown_check now w) (\<lambda>w1.
      and_then (rolling_window_check cfg now w1) (\<lambda>w2.
      and_then (min_delay_check cfg u now w2) (\<lambda>w3.
      and_then (burst_detection cfg now w3) (\<lambda>w4.
      human_delay cfg rd w4)))))"

section \<open>Recording a request\<close>

text \<open>\<^verbatim>\<open>deque(maxlen=200).append\<close>: a full deque drops its leftmost element.\<close>

definition deque_append :: "nat \<Rightarrow> 'a \<Rightarrow> 'a list \<Rightarrow> 'a list" where
  "deque_append maxlen x xs =
     (if maxlen = 0 then []
      else if length xs < maxlen then xs @ [x] else tl xs @ [x])"

definition record_request :: "world \<Rightarrow> world" where
  "record_request w =
     (let now = clock w in
      w\<lparr>request_history := deque_append 200 now (request_history w),
        state := (state w)\<lparr>last_request := Some now,
                           requests_made := requests_made (state w) + 1\<rparr>\<rparr>)"

section \<open>Sequences of calls\<close>

text \<open>
  What a caller does with the limiter: an admission call (with its two random draws), a
  \<^verbatim>\<open>record_request\<close>, or work of its own that takes some microseconds.
\<close>

datatype action = Admit real real | Record | Elapse nat

fun perform :: "rate_limit_config \<Rightarrow> action \<Rightarrow> world \<Rightarrow> py_error + world" where
  "perform cfg (Admit u rd) w = wait_if_needed cfg u rd w"
| "perform cfg Record w = Inr (record_request w)"
| "perform cfg (Elapse n) w = Inr (w\<lparr>clock := clock w + real n / 1000000\<rparr>)"

fun run :: "rate_limit_config \<Rightarrow> action list \<Rightarrow> world \<Rightarrow> py_error + world" where
  "run cfg [] w = Inr w"
| "run cfg (a # as) w = and_then (perform cfg a w) (run cfg as)"

definition history_ok :: "world \<Rightarrow> bool" where
  "history_ok w \<longleftrightarrow>
     length (request_history w) \<le> 200 \<and> sorted (request_history w)
   \<and> (\<forall>t \<in> set (request_history w). t \<le> clock w)"

text \<open>The time \<open>sleep_with_progress\<close> takes: the sum of its \<^verbatim>\<open>time.sleep\<close> arguments.\<close>

definition progress_time :: "real \<Rightarrow> real" where
  "progress_time seconds = (if seconds < 5 then seconds else real (nat (py_int seconds)))"

text \<open>What every block of the admission call leaves alone.\<close>

definition same_but_clock :: "world \<Rightarrow> world \<Rightarrow> bool" where
  "same_but_clock w w' \<longleftrightarrow>
     clock w \<le> clock w' \<and> request_history w' = request_history w
   \<and> last_request (state w') = last_request (state w)
   \<and> requests_made (state w') = requests_made (state w)
   \<and> window_start (state w') = window_start (state w)"

section \<open>The retry decorator\<close>

text \<open>\<^verbatim>\<open>CONFIG["retry"]\<close>, with the types its values have in the source: the delays
  and the base are Python integers, the jitter is a float. The decorator takes its own
  \<^verbatim>\<open>max_attempts\<close> and does not read the one stored here.\<close>

record retry_config =
  retry_max_attempts :: int
  base_delay :: int
  max_delay :: int
  exponential_base :: int
  jitter :: real

definition CONFIG_retry :: retry_config where
  "CONFIG_retry = \<lparr> retry_max_attempts = 3, base_delay = 5, max_delay = 300,
                    exponential_base = 2, jitter = 3 / 10 \<rparr>"

text \<open>
  The exceptions the wrapper tells apart. \<open>OtherException\<close> is any other subclass of
  \<^verbatim>\<open>Exception\<close>; \<open>KeyboardInterrupt\<close> stands for the \<^verbatim>\<open>BaseException\<close>s that
  \<^verbatim>\<open>except (ConnectionException, Exception)\<close> does not catch.
\<close>

datatype exn =
    LoginRequiredException
  | PrivateProfileNotFollowedException
  | ProfileNotExistsException
  | ConnectionException
  | RequestException
  | PyError py_error
  | OtherException
  | KeyboardInterrupt

fun is_Exception :: "exn \<Rightarrow> bool" where
  "is_Exception KeyboardInterrupt = False"
| "is_Exception _ = True"

fun is_RequestException :: "exn \<Rightarrow> bool" where
  "is_RequestException RequestException = True"
| "is_RequestException _ = False"

text \<open>\<^verbatim>\<open>isinstance(e, (LoginRequiredException, PrivateProfileNotFollowedException,
  ProfileNotExistsException))\<close>.\<close>

fun non_retryable :: "exn \<Rightarrow> bool" where
  "non_retryable LoginRequiredException = True"
| "non_retryable PrivateProfileNotFollowedException = True"
| "non_retryable ProfileNotExistsException = True"
| "non_retryable _ = False"

datatype log_line =
    Error_failed_after int
  | Warning_failed_attempt nat int
  | Info_retrying_in real

text \<open>What a run of the wrapper leaves behind: how often the wrapped function was
  called, the arguments of \<^verbatim>\<open>time.sleep\<close> in order, and the lines logged.\<close>

record retry_env =
  invocations :: nat
  sleeps :: "real list"
  logged :: "log_line list"

datatype 'a outcome = Returned 'a | Returned_None | Raised exn

text \<open>
  A Python integer that meets a float in \<^verbatim>\<open>*\<close> or \<^verbatim>\<open>+\<close> is converted to a double
  first, and the conversion raises \<^verbatim>\<open>OverflowError\<close> when the integer rounds to no
  finite double: from \<open>2 ^ 1024 - 2 ^ 970\<close> on, in magnitude. Within the range the
  value is taken as it is, and float arithmetic is exact (neither rounding nor
  infinite results are modelled).
\<close>

definition float_limit :: int where
  "float_limit = 2 ^ 1024 - 2 ^ 970"

definition py_float :: "int \<Rightarrow> py_error + real" where
  "py_float n = (if float_limit \<le> \<bar>n\<bar> then Inl OverflowError else Inr (real_of_int n))"

text \<open>\<^verbatim>\<open># Calculate backoff with jitter\<close>; \<open>u\<close> is the value of
  \<^verbatim>\<open>random.uniform(-retry_config["jitter"], retry_config["jitter"])\<close>. The delay is an
  exact integer; \<^verbatim>\<open>uniform(..) * delay\<close> converts it to a double.\<close>

definition backoff_wait_time :: "retry_config \<Rightarrow> nat \<Rightarrow> real \<Rightarrow> py_error + real" where
  "backoff_wait_time rc attempt u =
     (let delay = base_delay rc * exponential_base rc ^ attempt in
      and_then (py_float delay) (\<lambda>d.
        let jitter_amount = u * d
        in Inr (min (d + jitter_amount) (real_of_int (max_delay rc)))))"

text \<open>
  The loop \<^verbatim>\<open>for attempt in range(max_attempts)\<close>, with \<open>todo\<close> iterations left. The
  wrapped function is a script: \<open>func k\<close> is what its call returns or raises when it
  has been called \<open>k\<close> times before. \<open>us attempt\<close> is the random draw of that attempt,
  \<open>ra\<close> the flag \<^verbatim>\<open>REQUESTS_AVAILABLE\<close>. A bare \<^verbatim>\<open>raise\<close> re-raises the caught
  exception as it is. An exception raised while the delay is computed, or by
  \<^verbatim>\<open>time.sleep\<close>, leaves the handler and reaches the caller. A loop that runs out
  returns \<^verbatim>\<open>None\<close>.
\<close>

fun retry_loop ::
  "retry_config \<Rightarrow> bool \<Rightarrow> int \<Rightarrow> (nat \<Rightarrow> exn + 'a) \<Rightarrow> (nat \<Rightarrow> real) \<Rightarrow>
   nat \<Rightarrow> nat \<Rightarrow> retry_env \<Rightarrow> 'a outcome \<times> retry_env" where
  "retry_loop rc ra max_att func us 0 attempt s = (Returned_None, s)"
| "retry_loop rc ra max_att func us (Suc todo) attempt s =
     (let s1 = s\<lparr>invocations := invocations s + 1\<rparr> in
      case func (invocations s) of
        Inr v \<Rightarrow> (Returned v, s1)
      | Inl e \<Rightarrow>
          if \<not> is_Exception e then (Raised e, s1)
          else if ra \<and> is_RequestException e \<and> int attempt = max_att - 1 then
            (Raised e, s1\<lparr>logged := logged s1 @ [Error_failed_after max_att]\<rparr>)
          else if non_retryable e then (Raised e, s1)
          else if int attempt = max_att - 1 then
            (Raised e, s1\<lparr>logged := logged s1 @ [Error_failed_after max_att]\<rparr>)
          else
            (case backoff_wait_time rc attempt (us attempt) of
               Inl err \<Rightarrow> (Raised (PyError err), s1)
             | Inr wait_time \<Rightarrow>
                 let s2 = s1\<lparr>logged := logged s1 @
                            [Warning_failed_attempt (attempt + 1) max_att,
                             Info_retrying_in wait_time]\<rparr>
                 in if wait_time < 0 then (Raised (PyError ValueError), s2)
                    else retry_loop rc ra max_att func us todo (Suc attempt)
                           (s2\<lparr>sleeps := sleeps s2 @ [wait_time]\<rparr>)))"

definition retry_with_backoff ::
  "retry_config \<Rightarrow> bool \<Rightarrow> int \<Rightarrow> (nat \<Rightarrow> exn + 'a) \<Rightarrow> (nat \<Rightarrow> real) \<Rightarrow>
   retry_env \<Rightarrow> 'a outcome \<times> retry_env" where
  "retry_with_backoff rc ra max_att func us s =
     retry_loop rc ra max_att func us (nat max_att) 0 s"

definition fresh_env :: retry_env where
  "fresh_env = \<lparr> invocations = 0, sleeps = [], logged = [] \<rparr>"

section \<open>Example states\<close>

text \<open>A burst window opened 11 seconds ago; the last request was one second ago.\<close>

definition late_window_world :: world where
  "late_window_world =
     \<lparr> clock = 11,
       state = \<lparr> requests_made = 5, window_start = 0, last_request = Some 10,
                 burst_count = 5, burst_start = Some 0, is_cooling_down = False,
                 cooldown_until = None \<rparr>,
       request_history = [2, 4, 6, 8, 10] \<rparr>"

definition late_window_result :: world where
  "late_window_result =
     \<lparr> clock = 25 / 2,
       state = \<lparr> requests_made = 5, window_start = 0, last_request = Some 10,
                 burst_count = 1, burst_start = Some 11, is_cooling_down = False,
                 cooldown_until = None \<rparr>,
       request_history = [2, 4, 6, 8, 10] \<rparr>"

text \<open>A limiter in cooldown for three more seconds, and the same limiter one second
  after the cooldown has run out.\<close>

definition cooling_world :: world where
  "cooling_world =
     \<lparr> clock = 0,
       state = \<lparr> requests_made = 0, window_start = -60, last_request = None,
                 burst_count = 0, burst_start = Some (-58), is_cooling_down = True,
                 cooldown_until = Some 3 \<rparr>,
       request_history = [] \<rparr>"

definition cooling_result :: world where
  "cooling_result =
     \<lparr> clock = 7 / 2,
       state = \<lparr> requests_made = 0, window_start = -60, last_request = None,
                 burst_count = 1, burst_start = Some 0, is_cooling_down = True,
                 cooldown_until = Some 3 \<rparr>,
       request_history = [] \<rparr>"

definition cooled_world :: world where
  "cooled_world = cooling_world\<lparr>clock := 4\<rparr>"

definition cooled_result :: world where
  "cooled_result =
     \<lparr> clock = 9 / 2,
       state = \<lparr> requests_made = 0, window_start = -60, last_request = None,
                 burst_count = 1, burst_start = Some 4, is_cooling_down = False,
                 cooldown_until = Some 3 \<rparr>,
       request_history = [] \<rparr>"

section \<open>The admission call as the specification words it\<close>

text \<open>
  The specification's reading of the admission call, for comparison: when a block has
  slept, the next block takes the time as it stands after the wait. The blocks are the
  ones of \<open>wait_if_needed\<close>; only the time handed to each differs.
\<close>

definition admit_rereading_clock ::
  "rate_limit_config \<Rightarrow> real \<Rightarrow> real \<Rightarrow> world \<Rightarrow> py_error + world" where
  "admit_rereading_clock cfg u rd w =
     and_then (cooldown_check (clock w) w) (\<lambda>w1.
     and_then (rolling_window_check cfg (clock w1) w1) (\<lambda>w2.
     and_then (min_delay_check cfg u (clock w2) w2) (\<lambda>w3.
     and_then (burst_detection cfg (clock w3) w3) (\<lambda>w4.
     human_delay cfg rd w4))))"

section \<open>The time each block sleeps\<close>

text \<open>
  Read off the five blocks: the time each one sleeps, as a function of the time \<open>now\<close>
  it is given and of the limiter as it was when the call began. Block 1 may reset
  \<open>burst_count\<close> before block 4 reads it; \<open>count_after_cooldown\<close> is the value block 4
  finds.
\<close>

definition cooldown_wait :: "datetime \<Rightarrow> world \<Rightarrow> real" where
  "cooldown_wait now w =
     (case cooldown_until (state w) of
        Some c \<Rightarrow> if is_cooling_down (state w) \<and> now < c then progress_time (c - now) else 0
      | None \<Rightarrow> 0)"

definition count_after_cooldown :: "datetime \<Rightarrow> world \<Rightarrow> int" where
  "count_after_cooldown now w =
     (case cooldown_until (state w) of
        Some c \<Rightarrow> if is_cooling_down (state w) \<and> \<not> now < c then 0 else burst_count (state w)
      | None \<Rightarrow> burst_count (state w))"

definition quota_wait :: "rate_limit_config \<Rightarrow> datetime \<Rightarrow> world \<Rightarrow> real" where
  "quota_wait cfg now w =
     (let recent = recent_requests now (request_history w) in
      if requests_per_hour cfg \<le> int (length recent)
      then progress_time (Min (set recent) + 3600 - now) else 0)"

definition spacing_wait :: "rate_limit_config \<Rightarrow> real \<Rightarrow> datetime \<Rightarrow> world \<Rightarrow> real" where
  "spacing_wait cfg u now w =
     (case last_request (state w) of
        Some l \<Rightarrow> if now - l < min_delay cfg
                  then max 0 ((min_delay cfg - (now - l)) * (1 + u)) else 0
      | None \<Rightarrow> 0)"

definition burst_wait :: "rate_limit_config \<Rightarrow> datetime \<Rightarrow> world \<Rightarrow> real" where
  "burst_wait cfg now w =
     (case burst_start (state w) of
        Some b \<Rightarrow> if now - b < 10 \<and> burst_limit cfg \<le> count_after_cooldown now w + 1
                  then progress_time (cooldown_after_burst cfg) else 0
      | None \<Rightarrow> 0)"

definition human_wait :: "rate_limit_config \<Rightarrow> real \<Rightarrow> real" where
  "human_wait cfg rd = (if randomize_timing cfg then rd else 0)"

text \<open>A limiter in cooldown for three more seconds whose last request was one second
  ago and whose burst window opened eight seconds ago; what \<open>wait_if_needed\<close> makes of
  it, and what the call that reads the clock anew makes of it.\<close>

definition stale_world :: world where
  "stale_world =
     \<lparr> clock = 0,
       state = \<lparr> requests_made = 1, window_start = -70, last_request = Some (-1),
                 burst_count = 2, burst_start = Some (-8), is_cooling_down = True,
                 cooldown_until = Some 3 \<rparr>,
       request_history = [-1] \<rparr>"

definition stale_result :: world where
  "stale_result =
     \<lparr> clock = 9 / 2,
       state = \<lparr> requests_made = 1, window_start = -70, last_request = Some (-1),
                 burst_count = 3, burst_start = Some (-8), is_cooling_down = True,
                 cooldown_until = Some 3 \<rparr>,
       request_history = [-1] \<rparr>"

definition fresh_result :: world where
  "fresh_result =
     \<lparr> clock = 7 / 2,
       state = \<lparr> requests_made = 1, window_start = -70, last_request = Some (-1),
                 burst_count = 1, burst_start = Some 3, is_cooling_down = True,
                 cooldown_until = Some 3 \<rparr>,
       request_history = [-1] \<rparr>"

text \<open>A limiter that has recorded 180 requests, one every 20 seconds from time 0 to
  time 3580, asked for admission at time 3590.1; and what \<open>wait_if_needed\<close> makes of it.\<close>

definition full_hour_history :: "datetime list" where
  "full_hour_history = map (\<lambda>i. 20 * real i) [0..<180]"

definition full_hour_world :: world where
  "full_hour_world =
     \<lparr> clock = 35901 / 10,
       state = \<lparr> requests_made = 180, window_start = 0, last_request = Some 3580,
                 burst_count = 1, burst_start = Some 3578, is_cooling_down = False,
                 cooldown_until = None \<rparr>,
       request_history = full_hour_history \<rparr>"

definition full_hour_result :: world where
  "full_hour_result =
     \<lparr> clock = 35996 / 10,
       state = \<lparr> requests_made = 180, window_start = 0, last_request = Some 3580,
                 burst_count = 1, burst_start = Some (35901 / 10), is_cooling_down = False,
                 cooldown_until = None \<rparr>,
       request_history = full_hour_history \<rparr>"

section \<open>Error classes and an example operation\<close>

text \<open>A transient error is one the wrapper catches and does not re-raise at once.\<close>

definition transient :: "exn \<Rightarrow> bool" where
  "transient e \<longleftrightarrow> is_Exception e \<and> \<not> non_retryable e"

text \<open>An operation that fails with a different transient error on each of its first
  three calls.\<close>

definition flaky :: "nat \<Rightarrow> exn + unit" where
  "flaky k = (if k = 0 then Inl RequestException
              else if k = 1 then Inl OtherException else Inl ConnectionException)"

section \<open>Properties of the sleep helper\<close>

lemma sleep_steps_clock: "sleep_steps n w = Inr (w\<lparr>clock := clock w + real n\<rparr>)"
proof (induction n arbitrary: w)
  case 0
  show ?case by simp
next
  case (Suc n)
  show ?case
    by (simp add: and_then_def time_sleep_def Suc.IH add.assoc add.commute)
qed

lemma sleep_with_progress_long:
  assumes "5 \<le> d"
  shows "sleep_with_progress d w = Inr (w\<lparr>clock := clock w + of_int \<lfloor>d\<rfloor>\<rparr>)"
proof -
  have "0 \<le> \<lfloor>d\<rfloor>" using assms by simp
  then have "real (nat \<lfloor>d\<rfloor>) = of_int \<lfloor>d\<rfloor>" by simp
  then show ?thesis
    using assms by (simp add: sleep_with_progress_def py_int_def sleep_steps_clock)
qed

lemma sleep_with_progress_short:
  assumes "0 \<le> d" "d < 5"
  shows "sleep_with_progress d w = Inr (w\<lparr>clock := clock w + d\<rparr>)"
  using assms by (simp add: sleep_with_progress_def time_sleep_def)

text \<open>
  Claim C10. A suspension requested from the sleep helper for \<open>d \<ge> 5\<close> seconds lasts
  \<open>\<lfloor>d\<rfloor>\<close> seconds (one-second sleeps), which is less than one second short of \<open>d\<close>
  and never longer than \<open>d\<close>; for \<open>0 \<le> d < 5\<close> it lasts exactly \<open>d\<close>. The cooldown
  and quota blocks only ask for positive durations.
\<close>

theorem sleep_with_progress_floor:
  "(5 \<le> d \<longrightarrow>
      sleep_with_progress d w = Inr (w\<lparr>clock := clock w + of_int \<lfloor>d\<rfloor>\<rparr>)
    \<and> d - 1 < of_int \<lfloor>d\<rfloor> \<and> of_int \<lfloor>d\<rfloor> \<le> d)
   \<and> (0 \<le> d \<and> d < 5 \<longrightarrow> sleep_with_progress d w = Inr (w\<lparr>clock := clock w + d\<rparr>))"
proof (intro conjI impI)
  assume d: "5 \<le> d"
  show "sleep_with_progress d w = Inr (w\<lparr>clock := clock w + of_int \<lfloor>d\<rfloor>\<rparr>)"
    using d by (rule sleep_with_progress_long)
  show "d - 1 < of_int \<lfloor>d\<rfloor>" by linarith
  show "of_int \<lfloor>d\<rfloor> \<le> d" by simp
next
  assume "0 \<le> d \<and> d < 5"
  then show "sleep_with_progress d w = Inr (w\<lparr>clock := clock w + d\<rparr>)"
    by (simp add: sleep_with_progress_short)
qed

theorem sleep_with_progress_floor_witness:
  "(5::real) \<le> 99 / 10
   \<and> sleep_with_progress (99 / 10) (init_world 0) = Inr ((init_world 0)\<lparr>clock := 9\<rparr>)
   \<and> (0::real) \<le> 3 \<and> (3::real) < 5
   \<and> sleep_with_progress 3 (init_world 0) = Inr ((init_world 0)\<lparr>clock := 3\<rparr>)"
  using sleep_with_progress_floor [of "99 / 10" "init_world 0"]
    sleep_with_progress_floor [of 3 "init_world 0"]
  by (simp add: init_world_def)

section \<open>What the blocks of the admission call change\<close>

lemma time_sleep_Inr:
  "time_sleep d w = Inr w' \<longleftrightarrow> 0 \<le> d \<and> w' = w\<lparr>clock := clock w + d\<rparr>"
  by (auto simp: time_sleep_def)

lemma sleep_with_progress_Inr:
  "sleep_with_progress d w = Inr w' \<longleftrightarrow>
     0 \<le> d \<and> w' = w\<lparr>clock := clock w + progress_time d\<rparr>"
  by (auto simp: sleep_with_progress_def progress_time_def time_sleep_def sleep_steps_clock)

lemma progress_time_nonneg: "0 \<le> d \<Longrightarrow> 0 \<le> progress_time d"
  by (simp add: progress_time_def)

lemma and_then_Inr:
  "and_then r f = Inr y \<longleftrightarrow> (\<exists>x. r = Inr x \<and> f x = Inr y)"
  by (cases r) (simp_all add: and_then_def)

lemma same_but_clock_refl: "same_but_clock w w"
  by (simp add: same_but_clock_def)

lemma same_but_clock_trans:
  "same_but_clock a b \<Longrightarrow> same_but_clock b c \<Longrightarrow> same_but_clock a c"
  by (simp add: same_but_clock_def)

lemma cooldown_check_frame:
  "cooldown_check now w = Inr w' \<Longrightarrow> same_but_clock w w' \<and> burst_start (state w') = burst_start (state w)"
  by (auto simp: cooldown_check_def same_but_clock_def sleep_with_progress_Inr
      progress_time_nonneg split: if_splits option.splits)

lemma rolling_window_check_frame:
  "rolling_window_check cfg now w = Inr w' \<Longrightarrow> same_but_clock w w' \<and> state w' = state w"
  by (auto simp: rolling_window_check_def Let_def and_then_Inr same_but_clock_def
      sleep_with_progress_Inr progress_time_nonneg split: if_splits)

lemma min_delay_check_frame:
  "min_delay_check cfg u now w = Inr w' \<Longrightarrow> same_but_clock w w' \<and> state w' = state w"
  by (auto simp: min_delay_check_def Let_def same_but_clock_def time_sleep_Inr
      split: if_splits option.splits)

lemma burst_detection_frame:
  "burst_detection cfg now w = Inr w' \<Longrightarrow> same_but_clock w w'"
  by (auto simp: burst_detection_def Let_def and_then_Inr same_but_clock_def reset_burst_def
      sleep_with_progress_Inr progress_time_nonneg split: if_splits option.splits)

lemma human_delay_frame:
  "human_delay cfg rd w = Inr w' \<Longrightarrow> same_but_clock w w' \<and> state w' = state w"
  by (auto simp: human_delay_def same_but_clock_def time_sleep_Inr split: if_splits)

lemma wait_if_needed_steps:
  "wait_if_needed cfg u rd w = Inr w' \<longleftrightarrow>
     (\<exists>w1 w2 w3 w4. cooldown_check (clock w) w = Inr w1
        \<and> rolling_window_check cfg (clock w) w1 = Inr w2
        \<and> min_delay_check cfg u (clock w) w2 = Inr w3
        \<and> burst_detection cfg (clock w) w3 = Inr w4
        \<and> human_delay cfg rd w4 = Inr w')"
  by (simp add: wait_if_needed_def Let_def and_then_Inr)

lemma wait_if_needed_frame:
  assumes "wait_if_needed cfg u rd w = Inr w'"
  shows "same_but_clock w w'"
proof -
  from assms obtain w1 w2 w3 w4 where
    s1: "cooldown_check (clock w) w = Inr w1" and
    s2: "rolling_window_check cfg (clock w) w1 = Inr w2" and
    s3: "min_delay_check cfg u (clock w) w2 = Inr w3" and
    s4: "burst_detection cfg (clock w) w3 = Inr w4" and
    s5: "human_delay cfg rd w4 = Inr w'"
    unfolding wait_if_needed_steps by blast
  have "same_but_clock w w1" using cooldown_check_frame [OF s1] by simp
  moreover have "same_but_clock w1 w2" using rolling_window_check_frame [OF s2] by simp
  moreover have "same_but_clock w2 w3" using min_delay_check_frame [OF s3] by simp
  moreover have "same_but_clock w3 w4" using burst_detection_frame [OF s4] by simp
  moreover have "same_but_clock w4 w'" using human_delay_frame [OF s5] by simp
  ultimately show ?thesis by (blast intro: same_but_clock_trans)
qed

section \<open>The request history\<close>

lemma history_ok_init: "history_ok (init_world t0)"
  by (simp add: history_ok_def init_world_def)

lemma history_ok_same_but_clock:
  "history_ok w \<Longrightarrow> same_but_clock w w' \<Longrightarrow> history_ok w'"
  by (fastforce simp: history_ok_def same_but_clock_def)

lemma deque_append_length:
  "length xs \<le> 200 \<Longrightarrow> length (deque_append 200 x xs) \<le> 200"
  by (cases xs) (auto simp: deque_append_def)

lemma deque_append_set:
  "set (deque_append 200 x xs) \<subseteq> insert x (set xs)"
  by (cases xs) (auto simp: deque_append_def)

lemma deque_append_sorted:
  assumes "sorted xs" "\<forall>t \<in> set xs. t \<le> x"
  shows "sorted (deque_append 200 x xs)"
proof (cases xs)
  case Nil
  then show ?thesis by (simp add: deque_append_def)
next
  case (Cons y ys)
  with assms have "sorted ys" "\<forall>t \<in> set ys. t \<le> x" by simp_all
  with assms show ?thesis
    by (simp add: deque_append_def sorted_append Cons)
qed

lemma history_ok_record: 
  assumes "history_ok w" 
  shows "history_ok (record_request w)"
proof -
  let ?h = "deque_append 200 (clock w) (request_history w)"
  have "length ?h \<le> 200" using assms by (simp add: history_ok_def deque_append_length)
  moreover have "sorted ?h" using assms by (simp add: history_ok_def deque_append_sorted)
  moreover have "\<forall>t \<in> set ?h. t \<le> clock w"
    using assms deque_append_set [of "clock w" "request_history w"]
    by (auto simp: history_ok_def)
  ultimately show ?thesis by (simp add: history_ok_def record_request_def Let_def)
qed

lemma perform_invariant:
  assumes "history_ok w" "perform cfg a w = Inr w'"
  shows "history_ok w' \<and> requests_made (state w) \<le> requests_made (state w')"
proof (cases a)
  case (Admit u rd)
  with assms have "same_but_clock w w'" by (simp add: wait_if_needed_frame)
  with assms show ?thesis
    by (auto intro: history_ok_same_but_clock simp: same_but_clock_def)
next
  case Record
  with assms show ?thesis
    by (auto simp: history_ok_record) (simp add: record_request_def Let_def)
next
  case (Elapse n)
  with assms show ?thesis by (fastforce simp: history_ok_def)
qed

lemma run_invariant:
  "history_ok w \<Longrightarrow> run cfg acts w = Inr w' \<Longrightarrow>
     history_ok w' \<and> requests_made (state w) \<le> requests_made (state w')"
proof (induction acts arbitrary: w)
  case Nil
  then show ?case by simp
next
  case (Cons a acts)
  from Cons.prems obtain w1 where
    a: "perform cfg a w = Inr w1" and r: "run cfg acts w1 = Inr w'"
    by (auto simp: and_then_Inr)
  from perform_invariant [OF Cons.prems(1) a] Cons.IH [OF _ r]
  show ?case by force
qed

text \<open>
  Claim C9. \<open>record_request\<close> appends the current time to the history, dropping the
  oldest entry when 200 are stored already, sets \<open>last_request\<close> to the current time
  and adds one to \<open>requests_made\<close>. After any sequence of admission calls, recordings
  and elapsed time from a new limiter, the history holds at most 200 entries in
  non-decreasing order, and the counter is never smaller after further operations.
\<close>

theorem record_request_history:
  "record_request w =
     w\<lparr>request_history :=
         (if length (request_history w) < 200 then request_history w @ [clock w]
          else tl (request_history w) @ [clock w]),
       state := (state w)\<lparr>last_request := Some (clock w),
                          requests_made := requests_made (state w) + 1\<rparr>\<rparr>
   \<and> (run cfg acts (init_world t0) = Inr w1 \<longrightarrow> run cfg later w1 = Inr w2 \<longrightarrow>
        length (request_history w1) \<le> 200 \<and> sorted (request_history w1)
      \<and> requests_made (state w1) \<le> requests_made (state w2))"
proof (intro conjI impI)
  show "record_request w =
     w\<lparr>request_history :=
         (if length (request_history w) < 200 then request_history w @ [clock w]
          else tl (request_history w) @ [clock w]),
       state := (state w)\<lparr>last_request := Some (clock w),
                          requests_made := requests_made (state w) + 1\<rparr>\<rparr>"
    by (simp add: record_request_def Let_def deque_append_def)
next
  assume a: "run cfg acts (init_world t0) = Inr w1" and b: "run cfg later w1 = Inr w2"
  have ok: "history_ok w1" using run_invariant [OF history_ok_init a] by simp
  then show "length (request_history w1) \<le> 200" "sorted (request_history w1)"
    by (simp_all add: history_ok_def)
  show "requests_made (state w1) \<le> requests_made (state w2)"
    using run_invariant [OF ok b] by simp
qed

theorem record_request_history_witness:
  "run CONFIG [Record, Elapse 500000, Admit 0 (1 / 2)] (init_world 0) =
     Inr \<lparr> clock = 5 / 2,
       state = \<lparr> requests_made = 1, window_start = 0, last_request = Some 0,
                 burst_count = 1, burst_start = Some (1 / 2), is_cooling_down = False,
                 cooldown_until = None \<rparr>,
       request_history = [0] \<rparr>
   \<and> run CONFIG [Record] \<lparr> clock = 5 / 2,
       state = \<lparr> requests_made = 1, window_start = 0, last_request = Some 0,
                 burst_count = 1, burst_start = Some (1 / 2), is_cooling_down = False,
                 cooldown_until = None \<rparr>,
       request_history = [0] \<rparr> =
     Inr \<lparr> clock = 5 / 2,
       state = \<lparr> requests_made = 2, window_start = 0, last_request = Some (5 / 2),
                 burst_count = 1, burst_start = Some (1 / 2), is_cooling_down = False,
                 cooldown_until = None \<rparr>,
       request_history = [0, 5 / 2] \<rparr>
   \<and> length [0::real] \<le> 200 \<and> sorted [0::real] \<and> (1::int) \<le> 2"
proof -
  let ?w1 = "\<lparr> clock = 5 / 2,
       state = \<lparr> requests_made = 1, window_start = 0, last_request = Some 0,
                 burst_count = 1, burst_start = Some (1 / 2), is_cooling_down = False,
                 cooldown_until = None \<rparr>,
       request_history = [0] \<rparr>"
  let ?w2 = "\<lparr> clock = 5 / 2,
       state = \<lparr> requests_made = 2, window_start = 0, last_request = Some (5 / 2),
                 burst_count = 1, burst_start = Some (1 / 2), is_cooling_down = False,
                 cooldown_until = None \<rparr>,
       request_history = [0, 5 / 2] \<rparr>"
  have a: "run CONFIG [Record, Elapse 500000, Admit 0 (1 / 2)] (init_world 0) = Inr ?w1"
    by (simp add: init_world_def CONFIG_def and_then_def record_request_def Let_def
        deque_append_def wait_if_needed_def cooldown_check_def rolling_window_check_def
        recent_requests_def min_delay_check_def time_sleep_def burst_detection_def
        reset_burst_def human_delay_def)
  have b: "run CONFIG [Record] ?w1 = Inr ?w2"
    by (simp add: and_then_def record_request_def Let_def deque_append_def)
  from record_request_history [of "init_world 0" CONFIG
      "[Record, Elapse 500000, Admit 0 (1 / 2)]" 0 ?w1 "[Record]" ?w2] a b
  show ?thesis by simp
qed

section \<open>Minimum spacing\<close>

lemma min_delay_check_sleeps:
  assumes "last_request (state w) = Some l" "now - l < min_delay cfg"
  shows "min_delay_check cfg u now w =
     Inr (w\<lparr>clock := clock w + max 0 ((min_delay cfg - (now - l)) * (1 + u))\<rparr>)"
  using assms by (simp add: min_delay_check_def Let_def time_sleep_def algebra_simps)

lemma jittered_wait_lower:
  fixes m e u :: real
  assumes "e < m" "- (3 / 10) \<le> u"
  shows "(m - e) * (7 / 10) \<le> (m - e) * (1 + u)"
  using assms by (intro mult_left_mono) simp_all

lemma min_delay_check_spacing:
  assumes ret: "min_delay_check cfg u now w = Inr w'"
    and l: "last_request (state w) = Some l"
    and u: "- (3 / 10) \<le> u"
    and ord: "l \<le> now" "now \<le> clock w"
  shows "l + min_delay cfg * (7 / 10) \<le> clock w'"
proof (cases "now - l < min_delay cfg")
  case True
  from ret min_delay_check_sleeps [OF l True, of u]
  have c: "clock w' = clock w + max 0 ((min_delay cfg - (now - l)) * (1 + u))" by auto
  have "(min_delay cfg - (now - l)) * (7 / 10) \<le> (min_delay cfg - (now - l)) * (1 + u)"
    using True u by (rule jittered_wait_lower)
  then have "(min_delay cfg - (now - l)) * (7 / 10) \<le> clock w' - clock w"
    using c by simp
  moreover have "(min_delay cfg - (now - l)) * (7 / 10)
      = min_delay cfg * (7 / 10) - now * (7 / 10) + l * (7 / 10)"
    by (simp add: field_simps)
  ultimately show ?thesis using ord by linarith
next
  case False
  with ret l have "w' = w" by (simp add: min_delay_check_def Let_def)
  then have "clock w' = clock w" by simp
  with False ord show ?thesis by linarith
qed

lemma wait_if_needed_spacing:
  assumes ret: "wait_if_needed cfg u rd w = Inr w'"
    and l: "last_request (state w) = Some l"
    and u: "- (3 / 10) \<le> u"
    and ord: "l \<le> clock w"
  shows "l + min_delay cfg * (7 / 10) \<le> clock w'"
proof -
  from ret obtain w1 w2 w3 w4 where
    s1: "cooldown_check (clock w) w = Inr w1" and
    s2: "rolling_window_check cfg (clock w) w1 = Inr w2" and
    s3: "min_delay_check cfg u (clock w) w2 = Inr w3" and
    s4: "burst_detection cfg (clock w) w3 = Inr w4" and
    s5: "human_delay cfg rd w4 = Inr w'"
    unfolding wait_if_needed_steps by blast
  have f1: "same_but_clock w w1" using cooldown_check_frame [OF s1] by simp
  have f2: "same_but_clock w1 w2" using rolling_window_check_frame [OF s2] by simp
  have f12: "same_but_clock w w2" using f1 f2 by (rule same_but_clock_trans)
  then have l2: "last_request (state w2) = Some l" and c2: "clock w \<le> clock w2"
    using l by (simp_all add: same_but_clock_def)
  have "l + min_delay cfg * (7 / 10) \<le> clock w3"
    using s3 l2 u ord c2 by (rule min_delay_check_spacing)
  moreover have "clock w3 \<le> clock w4"
    using burst_detection_frame [OF s4] by (simp add: same_but_clock_def)
  moreover have "clock w4 \<le> clock w'"
    using human_delay_frame [OF s5] by (simp add: same_but_clock_def)
  ultimately show ?thesis by linarith
qed

text \<open>
  Claim C5. When \<open>last_request\<close> is set and \<open>now - last_request < min_delay\<close>, the
  spacing block sleeps \<open>(min_delay - elapsed) * (1 + u)\<close>, clamped at 0, where \<open>u\<close> is the
  jitter draw. For every draw \<open>u\<close> in \<open>[-0.3, 0.3]\<close>: when a \<open>record_request\<close> is
  followed, after any elapsed time, by an admission call that returns and then by the
  next \<open>record_request\<close>, the two recorded times are at least
  \<open>min_delay * (1 - 0.3)\<close> apart.
\<close>

theorem min_delay_spacing:
  "(last_request (state w) = Some l \<and> now - l < min_delay cfg \<longrightarrow>
      min_delay_check cfg u now w =
        Inr (w\<lparr>clock := clock w + max 0 ((min_delay cfg - (now - l)) * (1 + u))\<rparr>))
   \<and> (- (3 / 10) \<le> u \<and> u \<le> 3 / 10
        \<and> wait_if_needed cfg u rd ((record_request w0)\<lparr>clock := clock w0 + real d / 1000000\<rparr>) = Inr w1 \<longrightarrow>
        last_request (state (record_request w0)) = Some (clock w0)
      \<and> last_request (state (record_request w1)) = Some (clock w1)
      \<and> min_delay cfg * (1 - 3 / 10) \<le> clock w1 - clock w0)"
proof (intro conjI impI)
  assume "last_request (state w) = Some l \<and> now - l < min_delay cfg"
  then show "min_delay_check cfg u now w =
        Inr (w\<lparr>clock := clock w + max 0 ((min_delay cfg - (now - l)) * (1 + u))\<rparr>)"
    by (simp add: min_delay_check_sleeps)
next
  show "last_request (state (record_request w0)) = Some (clock w0)"
    by (simp add: record_request_def Let_def)
  show "last_request (state (record_request w1)) = Some (clock w1)"
    by (simp add: record_request_def Let_def)
next
  let ?w = "(record_request w0)\<lparr>clock := clock w0 + real d / 1000000\<rparr>"
  assume a: "- (3 / 10) \<le> u \<and> u \<le> 3 / 10 \<and> wait_if_needed cfg u rd ?w = Inr w1"
  have l: "last_request (state ?w) = Some (clock w0)"
    by (simp add: record_request_def Let_def)
  have "clock w0 \<le> clock ?w" by simp
  with a l have "clock w0 + min_delay cfg * (7 / 10) \<le> clock w1"
    by (intro wait_if_needed_spacing [of cfg u rd ?w w1]) simp_all
  then show "min_delay cfg * (1 - 3 / 10) \<le> clock w1 - clock w0" by simp
qed


theorem min_delay_spacing_witness:
  "last_request (state ((record_request (init_world 0))\<lparr>clock := 1 / 2\<rparr>)) = Some 0
   \<and> (1 / 2 - 0 < min_delay CONFIG)
   \<and> min_delay_check CONFIG (- (3 / 10)) (1 / 2) ((record_request (init_world 0))\<lparr>clock := 1 / 2\<rparr>)
       = Inr ((record_request (init_world 0))\<lparr>clock := 31 / 20\<rparr>)
   \<and> wait_if_needed CONFIG (- (3 / 10)) (1 / 2)
        ((record_request (init_world 0))\<lparr>clock := clock (init_world 0) + real 500000 / 1000000\<rparr>)
       = Inr \<lparr> clock = 41 / 20,
           state = \<lparr> requests_made = 1, window_start = 0, last_request = Some 0,
                 burst_count = 1, burst_start = Some (1 / 2), is_cooling_down = False,
                 cooldown_until = None \<rparr>,
           request_history = [0] \<rparr>
   \<and> min_delay CONFIG * (1 - 3 / 10) \<le> 41 / 20 - clock (init_world 0)"
proof -
  let ?w = "(record_request (init_world 0))\<lparr>clock := 1 / 2\<rparr>"
  let ?w1 = "\<lparr> clock = 41 / 20,
           state = \<lparr> requests_made = 1, window_start = 0, last_request = Some 0,
                 burst_count = 1, burst_start = Some (1 / 2), is_cooling_down = False,
                 cooldown_until = None \<rparr>,
           request_history = [0] \<rparr>"
  have r: "wait_if_needed CONFIG (- (3 / 10)) (1 / 2)
        ((record_request (init_world 0))\<lparr>clock := clock (init_world 0) + real 500000 / 1000000\<rparr>)
       = Inr ?w1"
    by (simp add: init_world_def CONFIG_def and_then_def record_request_def Let_def
        deque_append_def wait_if_needed_def cooldown_check_def rolling_window_check_def
        recent_requests_def min_delay_check_def time_sleep_def burst_detection_def
        reset_burst_def human_delay_def)
  have l: "last_request (state ?w) = Some 0"
    by (simp add: init_world_def record_request_def Let_def)
  have m: "1 / 2 - 0 < min_delay CONFIG" by (simp add: CONFIG_def)
  from min_delay_spacing [of ?w 0 "1 / 2" CONFIG "- (3 / 10)" "1 / 2" "init_world 0" 500000 ?w1]
    r l m
  show ?thesis by (simp add: init_world_def CONFIG_def record_request_def Let_def)
qed

section \<open>Burst window\<close>

lemmas admission_defs =
  and_then_def wait_if_needed_def cooldown_check_def rolling_window_check_def
  recent_requests_def min_delay_check_def time_sleep_def burst_detection_def
  reset_burst_def human_delay_def sleep_with_progress_def py_min_def Let_def

text \<open>
  Claim C4, as stated, fails: here the burst window is 11 seconds old and the call leaves
  \<open>burst_count\<close> at 1, not 0. (The spacing block has slept one second before the burst
  block runs, at time 12; \<open>burst_start\<close> becomes 11, the time read when the call began.)
\<close>

theorem burst_reset_counterexample:
  "burst_start (state late_window_world) = Some 0
   \<and> 10 < clock late_window_world - 0
   \<and> wait_if_needed CONFIG 0 (1 / 2) late_window_world = Inr late_window_result
   \<and> burst_count (state late_window_result) \<noteq> 0"
  by (simp add: late_window_world_def late_window_result_def CONFIG_def admission_defs)

lemma burst_detection_reset:
  assumes "burst_start (state w) = Some b" "10 \<le> now - b"
  shows "burst_detection cfg now w = Inr (reset_burst now w)"
  using assms by (simp add: burst_detection_def Let_def)

text \<open>
  Claim C4, amended. When an admission call returns and more than 10 seconds lie between
  \<open>burst_start\<close> and the time read at the start of the call, the call has set
  \<open>burst_count\<close> to 1 (the request being admitted is the first of the new window) and
  \<open>burst_start\<close> to that time.
\<close>

theorem burst_window_reset:
  assumes b: "burst_start (state w) = Some b"
    and late: "10 < clock w - b"
    and ret: "wait_if_needed cfg u rd w = Inr w'"
  shows "burst_count (state w') = 1 \<and> burst_start (state w') = Some (clock w)"
proof -
  from ret obtain w1 w2 w3 w4 where
    s1: "cooldown_check (clock w) w = Inr w1" and
    s2: "rolling_window_check cfg (clock w) w1 = Inr w2" and
    s3: "min_delay_check cfg u (clock w) w2 = Inr w3" and
    s4: "burst_detection cfg (clock w) w3 = Inr w4" and
    s5: "human_delay cfg rd w4 = Inr w'"
    unfolding wait_if_needed_steps by blast
  have "burst_start (state w1) = Some b"
    using cooldown_check_frame [OF s1] b by simp
  then have "burst_start (state w2) = Some b"
    using rolling_window_check_frame [OF s2] by simp
  then have b3: "burst_start (state w3) = Some b"
    using min_delay_check_frame [OF s3] by simp
  have "w4 = reset_burst (clock w) w3"
    using burst_detection_reset [OF b3, of "clock w" cfg] late s4 by simp
  then have "burst_count (state w4) = 1" "burst_start (state w4) = Some (clock w)"
    by (simp_all add: reset_burst_def)
  then show ?thesis using human_delay_frame [OF s5] by simp
qed

theorem burst_window_reset_witness:
  "burst_start (state late_window_world) = Some 0
   \<and> 10 < clock late_window_world - 0
   \<and> wait_if_needed CONFIG 0 (1 / 2) late_window_world = Inr late_window_result
   \<and> burst_count (state late_window_result) = 1
   \<and> burst_start (state late_window_result) = Some (clock late_window_world)"
proof -
  have b: "burst_start (state late_window_world) = Some 0"
    by (simp add: late_window_world_def)
  have late: "10 < clock late_window_world - 0"
    by (simp add: late_window_world_def)
  have ret: "wait_if_needed CONFIG 0 (1 / 2) late_window_world = Inr late_window_result"
    by (simp add: late_window_world_def late_window_result_def CONFIG_def admission_defs)
  from burst_window_reset [OF b late ret] b late ret show ?thesis by simp
qed

section \<open>Cooldown\<close>

text \<open>
  Claim C1, as stated, fails: a call that begins three seconds before \<open>cooldown_until\<close>
  sleeps and returns with the cooling-down flag still set.
\<close>

theorem cooldown_same_call_counterexample:
  "is_cooling_down (state cooling_world)
   \<and> cooldown_until (state cooling_world) = Some 3
   \<and> clock cooling_world < 3
   \<and> wait_if_needed CONFIG 0 (1 / 2) cooling_world = Inr cooling_result
   \<and> is_cooling_down (state cooling_result)"
  by (simp add: cooling_world_def cooling_result_def CONFIG_def admission_defs)

lemma cooling_flag_kept:
  assumes "is_cooling_down (state w1)"
    and s2: "rolling_window_check cfg now w1 = Inr w2"
    and s3: "min_delay_check cfg u now w2 = Inr w3"
    and s4: "burst_detection cfg now w3 = Inr w4"
    and s5: "human_delay cfg rd w4 = Inr w'"
  shows "is_cooling_down (state w')"
proof -
  have "is_cooling_down (state w3)"
    using assms(1) rolling_window_check_frame [OF s2] min_delay_check_frame [OF s3] by simp
  then have "is_cooling_down (state w4)"
    using s4
    by (auto simp: burst_detection_def Let_def and_then_Inr reset_burst_def
        sleep_with_progress_Inr split: if_splits option.splits)
  then show ?thesis using human_delay_frame [OF s5] by simp
qed

lemma cleared_stays_cleared:
  assumes w1: "\<not> is_cooling_down (state w1)" "burst_count (state w1) = 0"
    and limit: "1 < burst_limit cfg"
    and s2: "rolling_window_check cfg now w1 = Inr w2"
    and s3: "min_delay_check cfg u now w2 = Inr w3"
    and s4: "burst_detection cfg now w3 = Inr w4"
    and s5: "human_delay cfg rd w4 = Inr w'"
  shows "\<not> is_cooling_down (state w') \<and> burst_count (state w') = 1"
proof -
  have "\<not> is_cooling_down (state w3) \<and> burst_count (state w3) = 0"
    using w1 rolling_window_check_frame [OF s2] min_delay_check_frame [OF s3] by simp
  then have "\<not> is_cooling_down (state w4) \<and> burst_count (state w4) = 1"
    using s4 limit
    by (auto simp: burst_detection_def Let_def and_then_Inr reset_burst_def
        split: if_splits option.splits)
  then show ?thesis using human_delay_frame [OF s5] by simp
qed

text \<open>
  Claim C1, amended. Let a call begin with the cooling-down flag set. If the time read at
  its start is before \<open>cooldown_until\<close>, the cooldown block hands the remaining time to
  the sleep helper and the call returns with the flag still set. If that time is at or
  after \<open>cooldown_until\<close>, the cooldown block does not sleep, clears the flag and sets
  \<open>burst_count\<close> to 0; with a burst limit above 1 the call returns with the flag clear
  and \<open>burst_count = 1\<close>. So the flag is cleared by the first call that begins at or
  after \<open>cooldown_until\<close>.
\<close>

theorem cooldown_cleared_by_later_call:
  assumes cooling: "is_cooling_down (state w)"
    and until: "cooldown_until (state w) = Some c"
  shows "(clock w < c \<longrightarrow>
            cooldown_check (clock w) w = sleep_with_progress (c - clock w) w
          \<and> (wait_if_needed cfg u rd w = Inr w' \<longrightarrow> is_cooling_down (state w')))
       \<and> (c \<le> clock w \<longrightarrow>
            cooldown_check (clock w) w =
              Inr (w\<lparr>state := (state w)\<lparr>is_cooling_down := False, burst_count := 0\<rparr>\<rparr>)
          \<and> (wait_if_needed cfg u rd w = Inr w' \<and> 1 < burst_limit cfg \<longrightarrow>
               \<not> is_cooling_down (state w') \<and> burst_count (state w') = 1))"
proof (intro conjI impI)
  assume early: "clock w < c"
  show step: "cooldown_check (clock w) w = sleep_with_progress (c - clock w) w"
    using cooling until early by (simp add: cooldown_check_def)
  assume ret: "wait_if_needed cfg u rd w = Inr w'"
  then obtain w1 w2 w3 w4 where
    s1: "cooldown_check (clock w) w = Inr w1" and
    s2: "rolling_window_check cfg (clock w) w1 = Inr w2" and
    s3: "min_delay_check cfg u (clock w) w2 = Inr w3" and
    s4: "burst_detection cfg (clock w) w3 = Inr w4" and
    s5: "human_delay cfg rd w4 = Inr w'"
    unfolding wait_if_needed_steps by blast
  from s1 step have "is_cooling_down (state w1)"
    using cooling by (auto simp: sleep_with_progress_Inr)
  then show "is_cooling_down (state w')" using s2 s3 s4 s5 by (rule cooling_flag_kept)
next
  assume over: "c \<le> clock w"
  show step: "cooldown_check (clock w) w =
      Inr (w\<lparr>state := (state w)\<lparr>is_cooling_down := False, burst_count := 0\<rparr>\<rparr>)"
    using cooling until over by (simp add: cooldown_check_def)
  assume a: "wait_if_needed cfg u rd w = Inr w' \<and> 1 < burst_limit cfg"
  then obtain w1 w2 w3 w4 where
    s1: "cooldown_check (clock w) w = Inr w1" and
    s2: "rolling_window_check cfg (clock w) w1 = Inr w2" and
    s3: "min_delay_check cfg u (clock w) w2 = Inr w3" and
    s4: "burst_detection cfg (clock w) w3 = Inr w4" and
    s5: "human_delay cfg rd w4 = Inr w'"
    unfolding wait_if_needed_steps by blast
  from s1 step have "\<not> is_cooling_down (state w1)" "burst_count (state w1) = 0" by auto
  moreover from a have "1 < burst_limit cfg" by simp
  ultimately have "\<not> is_cooling_down (state w') \<and> burst_count (state w') = 1"
    using s2 s3 s4 s5 by (rule cleared_stays_cleared)
  then show "\<not> is_cooling_down (state w')" "burst_count (state w') = 1" by simp_all
qed

theorem cooldown_cleared_by_later_call_witness:
  "is_cooling_down (state cooling_world) \<and> cooldown_until (state cooling_world) = Some 3
   \<and> clock cooling_world < 3
   \<and> wait_if_needed CONFIG 0 (1 / 2) cooling_world = Inr cooling_result
   \<and> is_cooling_down (state cooling_result)
   \<and> is_cooling_down (state cooled_world) \<and> cooldown_until (state cooled_world) = Some 3
   \<and> 3 \<le> clock cooled_world
   \<and> wait_if_needed CONFIG 0 (1 / 2) cooled_world = Inr cooled_result
   \<and> 1 < burst_limit CONFIG
   \<and> \<not> is_cooling_down (state cooled_result) \<and> burst_count (state cooled_result) = 1"
proof -
  have a: "is_cooling_down (state cooling_world)" "cooldown_until (state cooling_world) = Some 3"
    "clock cooling_world < 3"
    by (simp_all add: cooling_world_def)
  have b: "is_cooling_down (state cooled_world)" "cooldown_until (state cooled_world) = Some 3"
    "3 \<le> clock cooled_world"
    by (simp_all add: cooled_world_def cooling_world_def)
  have r1: "wait_if_needed CONFIG 0 (1 / 2) cooling_world = Inr cooling_result"
    by (simp add: cooling_world_def cooling_result_def CONFIG_def admission_defs)
  have r2: "wait_if_needed CONFIG 0 (1 / 2) cooled_world = Inr cooled_result"
    by (simp add: cooled_world_def cooling_world_def cooled_result_def CONFIG_def admission_defs)
  have l: "1 < burst_limit CONFIG" by (simp add: CONFIG_def)
  from cooldown_cleared_by_later_call [OF a(1) a(2), of CONFIG 0 "1 / 2" cooling_result]
    cooldown_cleared_by_later_call [OF b(1) b(2), of CONFIG 0 "1 / 2" cooled_result]
    a b r1 r2 l
  show ?thesis by simp
qed

section \<open>Which time the blocks use\<close>

text \<open>
  Claim C2, as stated, fails: the cooldown block sleeps three seconds, and the later
  blocks still use the time read before that wait. The spacing block sleeps one second
  although four seconds have passed since the last request, and the burst block keeps a
  window that is eleven seconds old.
\<close>

theorem stale_now_counterexample:
  "is_cooling_down (state stale_world) \<and> cooldown_until (state stale_world) = Some 3
   \<and> clock stale_world < 3
   \<and> wait_if_needed CONFIG 0 (1 / 2) stale_world = Inr stale_result
   \<and> admit_rereading_clock CONFIG 0 (1 / 2) stale_world = Inr fresh_result
   \<and> stale_result \<noteq> fresh_result"
  by (simp add: stale_world_def stale_result_def fresh_result_def CONFIG_def
      admit_rereading_clock_def admission_defs)

lemma py_min_Inr:
  assumes "py_min xs = Inr m"
  shows "m = Min (set xs)"
proof (cases xs)
  case Nil
  then show ?thesis using assms by (simp add: py_min_def)
next
  case (Cons a list)
  then show ?thesis using assms Min.set_eq_fold [of a list] by (simp add: py_min_def)
qed

lemma cooldown_check_result:
  assumes "cooldown_check now w = Inr w1"
  shows "clock w1 = clock w + cooldown_wait now w"
    and "request_history w1 = request_history w"
    and "last_request (state w1) = last_request (state w)"
    and "burst_start (state w1) = burst_start (state w)"
    and "burst_count (state w1) = count_after_cooldown now w"
  using assms
  by (auto simp: cooldown_check_def cooldown_wait_def count_after_cooldown_def
      sleep_with_progress_Inr split: if_splits option.splits)

lemma rolling_window_check_result:
  assumes "rolling_window_check cfg now w = Inr w2"
  shows "w2 = w\<lparr>clock := clock w + quota_wait cfg now w\<rparr>"
  using assms
  by (auto simp: rolling_window_check_def quota_wait_def Let_def and_then_Inr
      sleep_with_progress_Inr dest!: py_min_Inr split: if_splits)

lemma min_delay_check_result:
  assumes "min_delay_check cfg u now w = Inr w3"
  shows "w3 = w\<lparr>clock := clock w + spacing_wait cfg u now w\<rparr>"
  using assms
  by (auto simp: min_delay_check_def spacing_wait_def Let_def time_sleep_Inr algebra_simps
      split: if_splits option.splits)

lemma burst_detection_result:
  assumes "burst_detection cfg now w = Inr w4"
  shows "clock w4 = clock w +
     (case burst_start (state w) of
        Some b \<Rightarrow> if now - b < 10 \<and> burst_limit cfg \<le> burst_count (state w) + 1
                  then progress_time (cooldown_after_burst cfg) else 0
      | None \<Rightarrow> 0)"
    and "burst_start (state w4) =
     (case burst_start (state w) of
        Some b \<Rightarrow> if now - b < 10 then Some b else Some now
      | None \<Rightarrow> Some now)"
  using assms
  by (auto simp: burst_detection_def Let_def and_then_Inr reset_burst_def
      sleep_with_progress_Inr split: if_splits option.splits)

lemma human_delay_result:
  assumes "human_delay cfg rd w = Inr w'"
  shows "w' = w\<lparr>clock := clock w + human_wait cfg rd\<rparr>"
  using assms by (auto simp: human_delay_def human_wait_def time_sleep_Inr split: if_splits)

text \<open>
  Claim C2, amended. In every admission call that returns, all five blocks work with the
  time read once when the call began, also after an earlier block has slept: the call
  lasts the sum of the five waits computed from that time and from the limiter as it was
  then, and the burst window is kept or restarted by comparing \<open>burst_start\<close> with that
  time.
\<close>

theorem wait_if_needed_entry_time:
  assumes ret: "wait_if_needed cfg u rd w = Inr w'"
  shows "clock w' = clock w + cooldown_wait (clock w) w + quota_wait cfg (clock w) w
           + spacing_wait cfg u (clock w) w + burst_wait cfg (clock w) w + human_wait cfg rd
       \<and> burst_start (state w') =
           (case burst_start (state w) of
              Some b \<Rightarrow> if clock w - b < 10 then Some b else Some (clock w)
            | None \<Rightarrow> Some (clock w))"
proof -
  from ret obtain w1 w2 w3 w4 where
    s1: "cooldown_check (clock w) w = Inr w1" and
    s2: "rolling_window_check cfg (clock w) w1 = Inr w2" and
    s3: "min_delay_check cfg u (clock w) w2 = Inr w3" and
    s4: "burst_detection cfg (clock w) w3 = Inr w4" and
    s5: "human_delay cfg rd w4 = Inr w'"
    unfolding wait_if_needed_steps by blast
  note r1 = cooldown_check_result [OF s1]
  note r2 = rolling_window_check_result [OF s2]
  note r3 = min_delay_check_result [OF s3]
  note r4 = burst_detection_result [OF s4]
  note r5 = human_delay_result [OF s5]
  have q: "quota_wait cfg (clock w) w1 = quota_wait cfg (clock w) w"
    using r1(2) by (simp add: quota_wait_def)
  have s: "spacing_wait cfg u (clock w) w2 = spacing_wait cfg u (clock w) w"
    using r1(3) r2 by (simp add: spacing_wait_def)
  have st3: "state w3 = state w1" using r2 r3 by simp
  have c3: "clock w3 = clock w + cooldown_wait (clock w) w + quota_wait cfg (clock w) w
      + spacing_wait cfg u (clock w) w"
    using r1(1) r2 r3 q s by simp
  have bc3: "burst_count (state w3) = count_after_cooldown (clock w) w"
    using st3 r1(5) by simp
  have bs3: "burst_start (state w3) = burst_start (state w)"
    using st3 r1(4) by simp
  have b: "clock w4 = clock w3 + burst_wait cfg (clock w) w"
    using r4(1) by (simp add: burst_wait_def bc3 bs3 split: option.splits)
  have bs: "burst_start (state w4) =
           (case burst_start (state w) of
              Some b \<Rightarrow> if clock w - b < 10 then Some b else Some (clock w)
            | None \<Rightarrow> Some (clock w))"
    using r4(2) by (simp add: bs3)
  show ?thesis using c3 b bs r5 by simp
qed

theorem wait_if_needed_entry_time_witness:
  "wait_if_needed CONFIG 0 (1 / 2) stale_world = Inr stale_result
   \<and> clock stale_result = clock stale_world + 3 + 0 + 1 + 0 + 1 / 2
   \<and> cooldown_wait (clock stale_world) stale_world = 3
   \<and> quota_wait CONFIG (clock stale_world) stale_world = 0
   \<and> spacing_wait CONFIG 0 (clock stale_world) stale_world = 1
   \<and> burst_wait CONFIG (clock stale_world) stale_world = 0
   \<and> human_wait CONFIG (1 / 2) = 1 / 2
   \<and> burst_start (state stale_result) = Some (-8)"
proof -
  have ret: "wait_if_needed CONFIG 0 (1 / 2) stale_world = Inr stale_result"
    by (simp add: stale_world_def stale_result_def CONFIG_def admission_defs)
  have w: "cooldown_wait (clock stale_world) stale_world = 3"
      "quota_wait CONFIG (clock stale_world) stale_world = 0"
      "spacing_wait CONFIG 0 (clock stale_world) stale_world = 1"
      "burst_wait CONFIG (clock stale_world) stale_world = 0"
      "human_wait CONFIG (1 / 2) = 1 / 2"
    by (simp_all add: stale_world_def CONFIG_def cooldown_wait_def quota_wait_def
        spacing_wait_def burst_wait_def human_wait_def progress_time_def recent_requests_def
        count_after_cooldown_def)
  from wait_if_needed_entry_time [OF ret] ret w show ?thesis
    by (simp add: stale_world_def)
qed

section \<open>Rolling-window quota\<close>

lemma full_hour_history_length: "length full_hour_history = 180"
  by (simp add: full_hour_history_def)

lemma full_hour_history_range: "t \<in> set full_hour_history \<Longrightarrow> 0 \<le> t"
  by (auto simp: full_hour_history_def)

lemma full_hour_history_first: "0 \<in> set full_hour_history"
proof -
  have "20 * real 0 \<in> (\<lambda>i. 20 * real i) ` set [0..<180]"
    by (rule imageI) simp
  then show ?thesis by (simp add: full_hour_history_def)
qed

lemma recent_requests_all:
  assumes "\<And>t. t \<in> set h \<Longrightarrow> now - 3600 < t"
  shows "recent_requests now h = h"
  using assms by (simp add: recent_requests_def)

lemma py_min_nonempty: "xs \<noteq> [] \<Longrightarrow> py_min xs = Inr (Min (set xs))"
  by (cases xs) (simp_all add: py_min_def Min.set_eq_fold del: set_simps)

lemma full_hour_history_min: "py_min full_hour_history = Inr 0"
proof -
  have ne: "full_hour_history \<noteq> []"
    using full_hour_history_length by auto
  have "Min (set full_hour_history) = 0"
    by (rule Min_eqI) (simp_all add: full_hour_history_range full_hour_history_first)
  with py_min_nonempty [OF ne] show ?thesis by simp
qed

lemma full_hour_recent:
  assumes "now < 3600"
  shows "recent_requests now full_hour_history = full_hour_history"
proof (rule recent_requests_all)
  fix t assume "t \<in> set full_hour_history"
  then have "0 \<le> t" by (rule full_hour_history_range)
  with assms show "now - 3600 < t" by simp
qed

text \<open>
  Claim C3 against the code. With the default configuration and 180 requests in the last
  hour, the oldest at time 0, the admission call asked at time 3590.1 should suspend until
  time 3600. The quota block computes the wait 9.9 and hands it to the sleep helper,
  which sleeps 9 seconds; with the shortest humanization delay the call returns at time
  3599.6, and the request recorded then is the 181st within one hour.
\<close>

theorem quota_wait_ends_early:
  "int (length (recent_requests (clock full_hour_world) (request_history full_hour_world)))
     \<ge> requests_per_hour CONFIG
   \<and> py_min (recent_requests (clock full_hour_world) (request_history full_hour_world)) = Inr 0
   \<and> wait_if_needed CONFIG 0 (1 / 2) full_hour_world = Inr full_hour_result
   \<and> clock full_hour_result < 0 + 3600
   \<and> int (length (recent_requests (clock (record_request full_hour_result))
             (request_history (record_request full_hour_result))))
       = requests_per_hour CONFIG + 1"
proof -
  have r0: "recent_requests (35901 / 10) full_hour_history = full_hour_history"
    by (rule full_hour_recent) simp
  have a: "int (length (recent_requests (clock full_hour_world) (request_history full_hour_world)))
     \<ge> requests_per_hour CONFIG"
    by (simp add: full_hour_world_def r0 full_hour_history_length CONFIG_def)
  have b: "py_min (recent_requests (clock full_hour_world) (request_history full_hour_world)) = Inr 0"
    by (simp add: full_hour_world_def r0 full_hour_history_min)
  have q: "rolling_window_check CONFIG (35901 / 10) full_hour_world
      = Inr (full_hour_world\<lparr>clock := 35991 / 10\<rparr>)"
    by (simp add: rolling_window_check_def Let_def full_hour_world_def r0
        full_hour_history_length full_hour_history_min CONFIG_def and_then_def
        sleep_with_progress_long)
  have c: "wait_if_needed CONFIG 0 (1 / 2) full_hour_world = Inr full_hour_result"
    unfolding wait_if_needed_def Let_def
    using q
    by (simp add: full_hour_world_def full_hour_result_def CONFIG_def and_then_def
        cooldown_check_def min_delay_check_def burst_detection_def reset_burst_def
        human_delay_def time_sleep_def)
  have d: "clock full_hour_result < 0 + 3600"
    by (simp add: full_hour_result_def)
  have r1: "recent_requests (35996 / 10) (full_hour_history @ [35996 / 10])
      = full_hour_history @ [35996 / 10]"
    using full_hour_recent [of "35996 / 10"] by (simp add: recent_requests_def)
  have e: "int (length (recent_requests (clock (record_request full_hour_result))
             (request_history (record_request full_hour_result))))
       = requests_per_hour CONFIG + 1"
    using r1
    by (simp add: record_request_def Let_def full_hour_result_def deque_append_def
        full_hour_history_length CONFIG_def)
  from a b c d e show ?thesis by blast
qed

section \<open>Backoff and retry\<close>

lemma py_float_in_range: "\<bar>n\<bar> < float_limit \<Longrightarrow> py_float n = Inr (real_of_int n)"
  by (simp add: py_float_def)


lemma backoff_wait_time_in_range:
  assumes "\<bar>base_delay rc * exponential_base rc ^ k\<bar> < float_limit"
  shows "backoff_wait_time rc k u =
     Inr (min (real_of_int (max_delay rc))
            (real_of_int (base_delay rc * exponential_base rc ^ k) * (1 + u)))"
  using assms
  by (simp add: backoff_wait_time_def Let_def and_then_def py_float_in_range
      algebra_simps min.commute)








text \<open>Under \<open>CONFIG_retry\<close> the range ends with attempt 1021.\<close>

lemma default_delay_in_range:
  "\<bar>base_delay CONFIG_retry * exponential_base CONFIG_retry ^ k\<bar> < float_limit \<longleftrightarrow> k \<le> 1021"
proof
  assume a: "\<bar>base_delay CONFIG_retry * exponential_base CONFIG_retry ^ k\<bar> < float_limit"
  show "k \<le> 1021"
  proof (rule ccontr)
    assume "\<not> k \<le> 1021"
    then have "1022 \<le> k" by simp
    then have "(2::int) ^ 1022 \<le> 2 ^ k" by (intro power_increasing) simp_all
    then have "float_limit \<le> 5 * (2::int) ^ k" by (simp add: float_limit_def)
    with a show False by (simp add: CONFIG_retry_def)
  qed
next
  assume "k \<le> 1021"
  then have "(2::int) ^ k \<le> 2 ^ 1021" by (intro power_increasing) simp_all
  then have "5 * (2::int) ^ k < float_limit" by (simp add: float_limit_def)
  then show "\<bar>base_delay CONFIG_retry * exponential_base CONFIG_retry ^ k\<bar> < float_limit"
    by (simp add: CONFIG_retry_def)
qed


text \<open>
  Claim C7. Under \<open>max_attempts = 3\<close>, when the first call of the wrapped operation raises
  a non-retryable error (login required, private profile not followed, profile does not
  exist), the wrapper raises that error to its caller having called the operation once,
  without sleeping and without logging.
\<close>

theorem non_retryable_propagates:
  assumes "func (invocations s) = Inl e" "non_retryable e"
  shows "retry_with_backoff rc ra 3 func us s =
           (Raised e, s\<lparr>invocations := invocations s + 1\<rparr>)"
proof -
  have "is_Exception e" "\<not> is_RequestException e"
    using assms(2) by (cases e; simp)+
  with assms show ?thesis
    by (simp add: retry_with_backoff_def numeral_3_eq_3 Let_def)
qed

theorem non_retryable_propagates_witness:
  "(\<lambda>k. Inl ProfileNotExistsException :: exn + unit) (invocations fresh_env)
      = Inl ProfileNotExistsException
   \<and> non_retryable ProfileNotExistsException
   \<and> retry_with_backoff CONFIG_retry True 3 (\<lambda>k. Inl ProfileNotExistsException :: exn + unit)
        (\<lambda>k. 0) fresh_env
       = (Raised ProfileNotExistsException, \<lparr>invocations = 1, sleeps = [], logged = []\<rparr>)"
  using non_retryable_propagates [of "\<lambda>k. Inl ProfileNotExistsException :: exn + unit"
      fresh_env ProfileNotExistsException CONFIG_retry True "\<lambda>k. 0"]
  by (simp add: fresh_env_def)

text \<open>Under \<open>CONFIG_retry\<close>, every attempt up to 1021 and every draw \<open>u \<ge> -1\<close> give a
  delay that \<^verbatim>\<open>time.sleep\<close> accepts.\<close>

lemma default_delay_accepted:
  assumes "k \<le> 1021" "- 1 \<le> u"
  shows "\<exists>d. backoff_wait_time CONFIG_retry k u = Inr d \<and> 0 \<le> d"
proof -
  let ?D = "base_delay CONFIG_retry * exponential_base CONFIG_retry ^ k"
  have r: "\<bar>?D\<bar> < float_limit" using assms(1) by (simp only: default_delay_in_range)
  have "0 \<le> real_of_int ?D" by (simp add: CONFIG_retry_def)
  moreover have "0 \<le> 1 + u" using assms(2) by simp
  ultimately have "0 \<le> real_of_int ?D * (1 + u)" by (rule mult_nonneg_nonneg)
  moreover have "0 \<le> real_of_int (max_delay CONFIG_retry)" by (simp add: CONFIG_retry_def)
  ultimately have "0 \<le> min (real_of_int (max_delay CONFIG_retry)) (real_of_int ?D * (1 + u))"
    by simp
  with backoff_wait_time_in_range [OF r, of u] show ?thesis by blast
qed

lemmas backoff_eval_defs =
  backoff_wait_time_def py_float_def float_limit_def and_then_def Let_def CONFIG_retry_def

text \<open>
  Claim C8, as stated, fails: when every attempt fails with a connection error, the
  operation is called three times and the wrapper then re-raises the exception of the
  third call as it is. What reaches the caller is the operation's own exception and
  carries no mark of exhaustion; the only sign of it is a line in the log.
\<close>

theorem retry_exhausted_counterexample:
  "transient ConnectionException
   \<and> retry_with_backoff CONFIG_retry True 3 (\<lambda>k. Inl ConnectionException :: exn + unit)
        (\<lambda>k. 0) fresh_env
       = (Raised ConnectionException,
          \<lparr>invocations = 3, sleeps = [5, 10],
           logged = [Warning_failed_attempt 1 3, Info_retrying_in 5,
                     Warning_failed_attempt 2 3, Info_retrying_in 10,
                     Error_failed_after 3]\<rparr>)
   \<and> fst (retry_with_backoff CONFIG_retry True 3 (\<lambda>k. Inl ConnectionException :: exn + unit)
        (\<lambda>k. 0) fresh_env)
       = (case (\<lambda>k. Inl ConnectionException :: exn + unit) 2 of
            Inl e \<Rightarrow> Raised e | Inr v \<Rightarrow> Returned v)"
  by (simp add: transient_def retry_with_backoff_def numeral_3_eq_3 fresh_env_def
      backoff_eval_defs)

text \<open>
  Claim C8, amended. Under \<open>max_attempts = 3\<close>, when the wrapped operation fails with a
  transient error on each of its three calls (and the two backoff delays are computed
  and not negative), the wrapper calls it exactly three times, sleeps the two backoff
  delays in between, logs the error line "failed after 3 attempts" and re-raises the last
  error unchanged.
\<close>

theorem retry_exhausted_reraises:
  assumes f0: "func (invocations s) = Inl e0"
    and f1: "func (invocations s + 1) = Inl e1"
    and f2: "func (invocations s + 2) = Inl e2"
    and t: "transient e0" "transient e1" "transient e2"
    and d: "backoff_wait_time rc 0 (us 0) = Inr d0" "backoff_wait_time rc 1 (us 1) = Inr d1"
    and w: "0 \<le> d0" "0 \<le> d1"
  shows "retry_with_backoff rc ra 3 func us s =
           (Raised e2,
            s\<lparr>invocations := invocations s + 3,
              sleeps := sleeps s @ [d0, d1],
              logged := logged s @
                [Warning_failed_attempt 1 3, Info_retrying_in d0,
                 Warning_failed_attempt 2 3, Info_retrying_in d1,
                 Error_failed_after 3]\<rparr>)"
  using assms
  by (simp add: retry_with_backoff_def numeral_3_eq_3 Let_def transient_def not_less)

theorem retry_exhausted_reraises_witness:
  "flaky (invocations fresh_env) = Inl RequestException
   \<and> flaky (invocations fresh_env + 1) = Inl OtherException
   \<and> flaky (invocations fresh_env + 2) = Inl ConnectionException
   \<and> transient RequestException \<and> transient OtherException \<and> transient ConnectionException
   \<and> backoff_wait_time CONFIG_retry 0 (1 / 10) = Inr (11 / 2)
   \<and> backoff_wait_time CONFIG_retry 1 (1 / 10) = Inr 11
   \<and> (0::real) \<le> 11 / 2 \<and> (0::real) \<le> 11
   \<and> retry_with_backoff CONFIG_retry True 3 flaky (\<lambda>k. 1 / 10) fresh_env =
        (Raised ConnectionException,
         \<lparr>invocations = 3, sleeps = [11 / 2, 11],
          logged = [Warning_failed_attempt 1 3, Info_retrying_in (11 / 2),
                    Warning_failed_attempt 2 3, Info_retrying_in 11,
                    Error_failed_after 3]\<rparr>)"
proof -
  have f: "flaky (invocations fresh_env) = Inl RequestException"
    "flaky (invocations fresh_env + 1) = Inl OtherException"
    "flaky (invocations fresh_env + 2) = Inl ConnectionException"
    by (simp_all add: flaky_def fresh_env_def)
  have t: "transient RequestException" "transient OtherException"
    "transient ConnectionException"
    by (simp_all add: transient_def)
  have b: "backoff_wait_time CONFIG_retry 0 (1 / 10) = Inr (11 / 2)"
    "backoff_wait_time CONFIG_retry 1 (1 / 10) = Inr 11"
    by (simp_all add: backoff_eval_defs)
  have d: "backoff_wait_time CONFIG_retry 0 ((\<lambda>k. 1 / 10) (0::nat)) = Inr (11 / 2)"
    "backoff_wait_time CONFIG_retry 1 ((\<lambda>k. 1 / 10) (1::nat)) = Inr 11"
    using b by simp_all
  have w: "(0::real) \<le> 11 / 2" "(0::real) \<le> 11" by simp_all
  from retry_exhausted_reraises [of flaky fresh_env, OF f t d w, of True] f t b
  show ?thesis by (simp add: fresh_env_def)
qed

end
